theory Spec2Isabelle
  imports Main
begin

section \<open>Python strings\<close>

text \<open>
  A Python \<open>str\<close> is modelled as the list of its code points, for code points below 256
  (one \<^typ>\<open>char\<close> each).  The methods of \<open>str\<close> that \<open>whois/__init__.py\<close> calls
  are written out below as Python defines them on that range.
\<close>

definition isupper :: "char \<Rightarrow> bool" where
  \<comment> \<open>the code points that \<open>str.lower\<close> changes: A-Z, and U+00C0-U+00DE without U+00D7\<close>
  "isupper c =
     (let n = (of_char c :: nat)
      in (65 \<le> n \<and> n \<le> 90) \<or> (192 \<le> n \<and> n \<le> 222 \<and> n \<noteq> 215))"

fun set_bit5 :: "char \<Rightarrow> char" where
  \<comment> \<open>adds 32 to a code point whose bit 5 is clear\<close>
  "set_bit5 (Char b0 b1 b2 b3 b4 b5 b6 b7) = Char b0 b1 b2 b3 b4 True b6 b7"

definition lower_char :: "char \<Rightarrow> char" where
  "lower_char c = (if isupper c then set_bit5 c else c)"

definition lower :: "string \<Rightarrow> string" where
  \<comment> \<open>\<open>s.lower()\<close>\<close>
  "lower s = map lower_char s"

definition isspace :: "char \<Rightarrow> bool" where
  \<comment> \<open>\<open>c.isspace()\<close>: U+0009-U+000D, U+001C-U+0020, U+0085, U+00A0\<close>
  "isspace c =
     (let n = (of_char c :: nat)
      in (9 \<le> n \<and> n \<le> 13) \<or> (28 \<le> n \<and> n \<le> 32) \<or> n = 133 \<or> n = 160)"

definition strip :: "string \<Rightarrow> string" where
  \<comment> \<open>\<open>s.strip()\<close>: whitespace removed at both ends\<close>
  "strip s = rev (dropWhile isspace (rev (dropWhile isspace s)))"

definition rstrip :: "string \<Rightarrow> string \<Rightarrow> string" where
  \<comment> \<open>\<open>s.rstrip(chars)\<close>: every trailing character that occurs in \<open>chars\<close> is removed\<close>
  "rstrip s chars = rev (dropWhile (\<lambda>c. c \<in> set chars) (rev s))"

fun split :: "string \<Rightarrow> char \<Rightarrow> string list" where
  \<comment> \<open>\<open>s.split(sep)\<close> for a one-character separator: one more part than separators\<close>
  "split [] sep = [[]]"
| "split (c # cs) sep =
     (if c = sep then [] # split cs sep
      else (case split cs sep of
              [] \<Rightarrow> [[c]]
            | w # ws \<Rightarrow> (c # w) # ws))"

fun startswith :: "string \<Rightarrow> string \<Rightarrow> bool" where
  "startswith s [] = True"
| "startswith [] (p # ps) = False"
| "startswith (c # cs) (p # ps) = (c = p \<and> startswith cs ps)"

definition endswith :: "string \<Rightarrow> string \<Rightarrow> bool" where
  \<comment> \<open>\<open>s.endswith(suffix)\<close>\<close>
  "endswith s suffix = startswith (rev s) (rev suffix)"

section \<open>Exceptions\<close>

text \<open>
  Every \<open>raise\<close> of the module is a value.  \<open>Propagated\<close> is an exception that a
  collaborator (\<open>do_query\<close>, \<open>do_parse\<close>, the \<open>Domain\<close> constructor) raised and
  \<open>query\<close> lets through, with its description.
\<close>

datatype exn =
    AssertionError string
  | IndexError
  | KeyError string
  | UnicodeError
  | UnknownTld string
  | WhoisPrivateRegistry string
  | Propagated string

section \<open>The suffix tables\<close>

text \<open>
  The three dictionaries, as association lists in the order of the source: a Python
  \<open>dict\<close> is iterated in insertion order.
\<close>

definition Map2Underscore :: "(string \<times> string) list" where
  "Map2Underscore =
    [(''.ac.uk'', ''ac_uk''),
     (''.co.il'', ''co_il''),
     (''.ca.ug'', ''ca_ug''),
     (''.co.ug'', ''co_ug''),
     (''.co.th'', ''co_th''),
     (''.in.th'', ''in_th''),
     (''.ac.jp'', ''ac_jp''),
     (''.ad.jp'', ''ad_jp''),
     (''.co.jp'', ''co_jp''),
     (''.ed.jp'', ''ed_jp''),
     (''.go.jp'', ''go_jp''),
     (''.gr.jp'', ''gr_jp''),
     (''.lg.jp'', ''lg_jp''),
     (''.ne.jp'', ''ne_jp''),
     (''.or.jp'', ''or_jp''),
     (''.geo.jp'', ''geo_jp''),
     (''.com.au'', ''com_au''),
     (''.com.sg'', ''com_sg''),
     (''.com.tr'', ''com_tr''),
     (''.edu.tr'', ''edu_tr''),
     (''.org.tr'', ''org_tr''),
     (''.edu.ua'', ''edu_ua''),
     (''.lviv.ua'', ''lviv_ua''),
     (''.hopto.org'', ''hopto_org''),
     (''.duckdns.org'', ''duckdns_org''),
     (''.no-ip.com'', ''noip_com''),
     (''.no-ip.org'', ''noip_org''),
     (''.ac.th'', ''ac_th''),
     (''.co.ke'', ''co_ke''),
     (''.com.bo'', ''com_bo''),
     (''.com.ly'', ''com_ly''),
     (''.com.tw'', ''com_tw''),
     (''.com.np'', ''com_np''),
     (''.go.th'', ''go_th''),
     (''.com.ec'', ''com_ec''),
     (''.gob.ec'', ''gob_ec''),
     (''.co.zw'', ''com_zw''),
     (''.org.zw'', ''org_zw''),
     (''.com.py'', ''com_py'')]"

definition PythonKeyWordMap :: "(string \<times> string) list" where
  "PythonKeyWordMap =
    [(''global'', ''global_''),
     (''.id'', ''id_''),
     (''.in'', ''in_''),
     (''.is'', ''is_''),
     (''.as'', ''as_'')]"

definition Utf8Map :: "(string \<times> string) list" where
  "Utf8Map = [(''.xn--p1ai'', ''ru_rf'')]"

section \<open>The suffix classifier\<close>

fun first_suffix :: "(string \<times> string) list \<Rightarrow> string \<Rightarrow> string option" where
  \<comment> \<open>\<open>for i in M: if domain.endswith(i): return M[i]\<close>; \<open>None\<close> when the loop falls through\<close>
  "first_suffix [] domain = None"
| "first_suffix ((i, v) # M) domain =
     (if endswith domain i then Some v else first_suffix M domain)"

definition filterTldToSupportedPattern ::
  "string \<Rightarrow> string list \<Rightarrow> bool \<Rightarrow> exn + (string \<times> string list)" where
  \<comment> \<open>returns the tld and the list \<open>d\<close> as the call leaves it: the \<open>.name\<close> branch
      assigns to \<open>d[0]\<close>, and the caller's list is that same object\<close>
  "filterTldToSupportedPattern domain d verbose =
     (case (if length d > 2 then first_suffix Map2Underscore domain else None) of
        Some tld \<Rightarrow> Inr (tld, d)
      | None \<Rightarrow>
     (case first_suffix PythonKeyWordMap domain of
        Some tld \<Rightarrow> Inr (tld, d)
      | None \<Rightarrow>
     (case first_suffix Utf8Map domain of
        Some tld \<Rightarrow> Inr (tld, d)
      | None \<Rightarrow>
        if endswith domain ''.name''
        then (case d of
                [] \<Rightarrow> Inl IndexError
              | d0 # ds \<Rightarrow> Inr (last ((''domain='' @ d0) # ds), (''domain='' @ d0) # ds))
        else (case d of
                [] \<Rightarrow> Inl IndexError
              | _ # _ \<Rightarrow> Inr (last d, d)))))"

section \<open>The internationalization converter\<close>

text \<open>
  \<open>k.encode("idna")\<close> is Python's codec, not code of this module, and it raises
  \<open>UnicodeError\<close> on a label it cannot encode.  The converter takes the codec as the
  parameter \<open>enc\<close>, \<open>None\<close> standing for the raised \<open>UnicodeError\<close>.  The result of
  \<open>.decode()\<close> on the codec's ASCII output is the same text.
\<close>

fun internationalizedDomainNameToPunyCode ::
  "(string \<Rightarrow> string option) \<Rightarrow> string list \<Rightarrow> exn + string list" where
  \<comment> \<open>\<open>[k.encode("idna").decode() or k for k in d]\<close>: the comprehension evaluates the
      labels from left to right, and an exception in one of them ends it\<close>
  "internationalizedDomainNameToPunyCode enc [] = Inr []"
| "internationalizedDomainNameToPunyCode enc (k # d) =
     (case enc k of
        None \<Rightarrow> Inl UnicodeError
      | Some e \<Rightarrow>
          (case internationalizedDomainNameToPunyCode enc d of
             Inl err \<Rightarrow> Inl err
           | Inr r \<Rightarrow> Inr ((if e \<noteq> [] then e else k) # r)))"

definition idna_codec :: "(string \<Rightarrow> string option) \<Rightarrow> string \<Rightarrow> string option" where
  \<comment> \<open>Python's \<open>idna\<close> codec on one label (a string without a dot): the empty string
      encodes to itself, an ASCII label encodes to itself when it has fewer than 64
      characters and raises otherwise; a label with a code point above 127 goes
      through \<open>ToASCII\<close> (nameprep and punycode), which stays a parameter\<close>
  "idna_codec ToASCII k =
     (if k = [] then Some []
      else if list_all (\<lambda>c. (of_char c :: nat) < 128) k
           then (if length k \<ge> 64 then None else Some k)
           else ToASCII k)"

section \<open>The collaborators\<close>

text \<open>
  \<open>TLD_RE\<close>, \<open>do_query\<close>, \<open>do_parse\<close> and \<open>Domain\<close> are imported from modules that are
  not part of \<open>whois/__init__.py\<close>; \<open>query\<close> takes them in one record.  A collaborator
  that raises returns \<open>Inl\<close> with the description of its exception.  Within one call
  of \<open>query\<close> every call of \<open>do_query\<close> and of \<open>do_parse\<close> has a label sequence of its
  own length, so a function of the arguments also covers a collaborator that
  keeps a cache or reads the network.
\<close>

record tld_meta =
  meta_privateRegistry :: "bool option"  \<comment> \<open>\<open>thisTld.get("_privateRegistry")\<close>\<close>
  meta_server :: "string option"         \<comment> \<open>\<open>thisTld.get("_server")\<close>\<close>
  meta_slowdown :: "int option"          \<comment> \<open>\<open>thisTld.get("_slowdown")\<close>\<close>

record do_query_args =
  dl :: "string list"
  q_force :: bool
  q_cache_file :: "string option"
  q_slow_down :: int
  q_ignore_returncode :: bool
  q_server :: "string option"
  q_verbose :: bool

type_synonym parsed = "(string \<times> string list) list"

record 'dom collab =
  TLD_RE :: "string \<rightharpoonup> tld_meta"
  do_query :: "do_query_args \<Rightarrow> string + string"
  do_parse :: "string \<Rightarrow> string \<Rightarrow> string list \<Rightarrow> bool \<Rightarrow> bool \<Rightarrow> string + parsed option"
  Domain :: "parsed \<Rightarrow> bool \<Rightarrow> string + 'dom"
  idna :: "string \<Rightarrow> string option"

section \<open>The entry point\<close>

definition CACHE_FILE :: "string option" where
  "CACHE_FILE = None"

definition SLOW_DOWN :: int where
  "SLOW_DOWN = 0"

text \<open>The value passed as \<open>domain\<close>: the annotation \<open>str\<close> is not enforced by Python.\<close>

datatype pyobj =
    PyStr string
  | PyNone
  | PyBool bool
  | PyInt int
  | PyBytes string
  | PyList "pyobj list"
  | PyDict "(pyobj \<times> pyobj) list"

definition isinstance_str :: "pyobj \<Rightarrow> bool" where
  "isinstance_str v = (case v of PyStr s \<Rightarrow> True | _ \<Rightarrow> False)"

definition truthy :: "string option \<Rightarrow> bool" where
  \<comment> \<open>the truth value of an \<open>Optional[str]\<close>: neither \<open>None\<close> nor the empty string\<close>
  "truthy v = (case v of None \<Rightarrow> False | Some s \<Rightarrow> s \<noteq> [])"

definition normalize :: "string \<Rightarrow> string" where
  \<comment> \<open>\<open>domain.lower().strip().rstrip(".")\<close>\<close>
  "normalize domain = rstrip (strip (lower domain)) ''.''"

definition labels :: "string \<Rightarrow> exn + string list" where
  \<comment> \<open>\<open>d = domain.split("."); if d[0] == "www": d = d[1:]\<close>\<close>
  "labels domain =
     (case split domain (CHR ''.'') of
        [] \<Rightarrow> Inl IndexError
      | d0 # ds \<Rightarrow> Inr (if d0 = ''www'' then ds else d0 # ds))"

definition has_domain_name :: "parsed option \<Rightarrow> exn + bool" where
  \<comment> \<open>the truth value of \<open>pd and pd["domain_name"][0]\<close>\<close>
  "has_domain_name pd =
     (case pd of
        None \<Rightarrow> Inr False
      | Some [] \<Rightarrow> Inr False
      | Some (x # xs) \<Rightarrow>
          (case map_of (x # xs) ''domain_name'' of
             None \<Rightarrow> Inl (KeyError ''domain_name'')
           | Some [] \<Rightarrow> Inl IndexError
           | Some (n # ns) \<Rightarrow> Inr (n \<noteq> [])))"

type_synonym 'dom outcome = "exn + 'dom option"

definition attempt ::
  "'dom collab \<Rightarrow> string \<Rightarrow> bool \<Rightarrow> do_query_args \<Rightarrow> 'dom outcome option" where
  \<comment> \<open>one pass of the body of \<open>while 1\<close> up to its first \<open>if\<close>: \<open>Some\<close> when the pass
      leaves \<open>query\<close> (a \<open>Domain\<close>, or an exception), \<open>None\<close> when there is no result\<close>
  "attempt C tld with_cleanup_results call =
     (case do_query C call of
        Inl e \<Rightarrow> Some (Inl (Propagated e))
      | Inr q \<Rightarrow>
     (case do_parse C q tld (dl call) (q_verbose call) with_cleanup_results of
        Inl e \<Rightarrow> Some (Inl (Propagated e))
      | Inr pd \<Rightarrow>
     (case has_domain_name pd of
        Inl e \<Rightarrow> Some (Inl e)
      | Inr False \<Rightarrow> None
      | Inr True \<Rightarrow>
          (case pd of
             None \<Rightarrow> None
           | Some p \<Rightarrow>
               (case Domain C p (q_verbose call) of
                  Inl e \<Rightarrow> Some (Inl (Propagated e))
                | Inr r \<Rightarrow> Some (Inr (Some r)))))))"

function query_loop ::
  "'dom collab \<Rightarrow> string \<Rightarrow> string list \<Rightarrow> bool \<Rightarrow> do_query_args \<Rightarrow> string list
     \<Rightarrow> 'dom outcome \<times> do_query_args list" where
  \<comment> \<open>the \<open>while 1\<close> loop on \<open>d\<close>; the second component lists the calls of \<open>do_query\<close>
      in the order they are made\<close>
  "query_loop C tld tldLevel with_cleanup_results args d =
     (case attempt C tld with_cleanup_results (args\<lparr>dl := d\<rparr>) of
        Some r \<Rightarrow> (r, [args\<lparr>dl := d\<rparr>])
      | None \<Rightarrow>
          if length d > length tldLevel + 1
          then apsnd ((#) (args\<lparr>dl := d\<rparr>))
                 (query_loop C tld tldLevel with_cleanup_results args (drop 1 d))
          else (Inr None, [args\<lparr>dl := d\<rparr>]))"
  by pat_completeness auto
termination
  by (relation "measure (\<lambda>(C, tld, tldLevel, with_cleanup_results, args, d). length d)") auto

declare query_loop.simps [simp del]

definition query_str ::
  "'dom collab \<Rightarrow> string \<Rightarrow> bool \<Rightarrow> string option \<Rightarrow> int \<Rightarrow> bool \<Rightarrow> string option
     \<Rightarrow> bool \<Rightarrow> bool \<Rightarrow> bool \<Rightarrow> 'dom outcome \<times> do_query_args list" where
  \<comment> \<open>the body of \<open>query\<close> after its \<open>assert\<close>\<close>
  "query_str C domain0 force cache_file0 slow_down0 ignore_returncode server0 verbose
     with_cleanup_results internationalized =
     (let cache_file = (if truthy cache_file0 then cache_file0 else CACHE_FILE);
          slow_down1 = (if slow_down0 \<noteq> 0 then slow_down0 else SLOW_DOWN);
          domain = normalize domain0
      in (case labels domain of
            Inl e \<Rightarrow> (Inl e, [])
          | Inr d0 \<Rightarrow>
              (if length d0 = 1 then (Inr None, [])
               else
                 (case filterTldToSupportedPattern domain d0 verbose of
                    Inl e \<Rightarrow> (Inl e, [])
                  | Inr (tld, d1) \<Rightarrow>
                      (case TLD_RE C tld of
                         None \<Rightarrow>
                           (Inl (UnknownTld
                              (''The TLD '' @ tld @ '' is currently not supported by this package.''
                               @ '' ''
                               @ ''Use validTlds() to see what toplevel domains are supported.'')),
                            [])
                       | Some thisTld \<Rightarrow>
                           (if meta_privateRegistry thisTld = Some True
                            then (Inl (WhoisPrivateRegistry
                                   ''This tld has either no whois server or responds only with minimal information''),
                                  [])
                            else
                              (let thisTldServer = meta_server thisTld;
                                   server = (if server0 = None \<and> truthy thisTldServer
                                             then thisTldServer else server0);
                                   slowDown = meta_slowdown thisTld;
                                   slow_down =
                                     (case slowDown of
                                        Some n \<Rightarrow>
                                          (if slow_down1 = 0 \<and> n \<noteq> 0 \<and> n > 0 then n
                                           else slow_down1)
                                      | None \<Rightarrow> slow_down1);
                                   tldLevel = split tld (CHR ''_'')
                               in (case (if internationalized
                                         then internationalizedDomainNameToPunyCode (idna C) d1
                                         else Inr d1) of
                                     Inl e \<Rightarrow> (Inl e, [])
                                   | Inr d \<Rightarrow>
                                       query_loop C tld tldLevel with_cleanup_results
                                         \<lparr>dl = d, q_force = force, q_cache_file = cache_file,
                                          q_slow_down = slow_down,
                                          q_ignore_returncode = ignore_returncode,
                                          q_server = server, q_verbose = verbose\<rparr> d))))))))"

definition query ::
  "'dom collab \<Rightarrow> pyobj \<Rightarrow> bool \<Rightarrow> string option \<Rightarrow> int \<Rightarrow> bool \<Rightarrow> string option
     \<Rightarrow> bool \<Rightarrow> bool \<Rightarrow> bool \<Rightarrow> 'dom outcome \<times> do_query_args list" where
  \<comment> \<open>\<open>assert isinstance(domain, str), Exception(...)\<close>, then the body\<close>
  "query C domain force cache_file slow_down ignore_returncode server verbose
     with_cleanup_results internationalized =
     (case domain of
        PyStr s \<Rightarrow>
          query_str C s force cache_file slow_down ignore_returncode server verbose
            with_cleanup_results internationalized
      | _ \<Rightarrow> (Inl (AssertionError ''`domain` - must be <str>''), []))"

section \<open>Definitions used in the statements\<close>

definition compound_key :: "string \<Rightarrow> bool" where
  \<comment> \<open>the shape of every key of \<open>Map2Underscore\<close>: a dot, a label, a dot, a label\<close>
  "compound_key k = (k \<noteq> [] \<and> hd k = CHR ''.'' \<and> count_list k (CHR ''.'') = 2)"

text \<open>
  The normalizer as the specification words it: lowercase; strip leading and
  trailing whitespace; strip a single trailing dot; split on the dot; drop the first
  label when it equals \<open>www\<close>.
\<close>

definition spec_strip_trailing_dot :: "string \<Rightarrow> string" where
  "spec_strip_trailing_dot s = (if s \<noteq> [] \<and> last s = CHR ''.'' then butlast s else s)"

definition spec_drop_www :: "string list \<Rightarrow> string list" where
  "spec_drop_www d = (if d \<noteq> [] \<and> hd d = ''www'' then tl d else d)"

definition spec_labels :: "string \<Rightarrow> string list" where
  "spec_labels raw =
     spec_drop_www (split (spec_strip_trailing_dot (strip (lower raw))) (CHR ''.''))"

text \<open>
  The query parameters as the specification words them: the caller's server when
  given, otherwise the metadata's server override when present, otherwise none; the
  caller's delay when nonzero, otherwise the metadata's minimum delay when present,
  otherwise zero.
\<close>

definition spec_effective_server :: "string option \<Rightarrow> tld_meta \<Rightarrow> string option" where
  "spec_effective_server server thisTld =
     (case server of Some s \<Rightarrow> Some s | None \<Rightarrow> meta_server thisTld)"

definition spec_effective_delay :: "int \<Rightarrow> tld_meta \<Rightarrow> int" where
  "spec_effective_delay slow_down thisTld =
     (if slow_down \<noteq> 0 then slow_down
      else case meta_slowdown thisTld of Some n \<Rightarrow> n | None \<Rightarrow> 0)"

text \<open>
  The same with the two guards of the code: a server override counts when it is not
  the empty string, a minimum delay when it is positive.
\<close>

definition effective_server :: "string option \<Rightarrow> tld_meta \<Rightarrow> string option" where
  "effective_server server thisTld =
     (case server of
        Some s \<Rightarrow> Some s
      | None \<Rightarrow>
          (case meta_server thisTld of
             Some h \<Rightarrow> if h \<noteq> [] then Some h else None
           | None \<Rightarrow> None))"

definition effective_delay :: "int \<Rightarrow> tld_meta \<Rightarrow> int" where
  "effective_delay slow_down thisTld =
     (if slow_down \<noteq> 0 then slow_down
      else case meta_slowdown thisTld of
             Some n \<Rightarrow> if n > 0 then n else 0
           | None \<Rightarrow> 0)"

text \<open>
  Collaborators for the concrete runs: a registry given as a list, a lookup that
  answers with an empty text, a parser that finds nothing (so the loop runs to its
  end), and the codec on ASCII labels.
\<close>

definition plain_tld :: tld_meta where
  "plain_tld = \<lparr>meta_privateRegistry = None, meta_server = None, meta_slowdown = None\<rparr>"

definition nothing_found :: "(string \<times> tld_meta) list \<Rightarrow> parsed collab" where
  "nothing_found registry =
     \<lparr>TLD_RE = map_of registry,
      do_query = (\<lambda>call. Inr []),
      do_parse = (\<lambda>whois_str tld dl verbose with_cleanup_results. Inr None),
      Domain = (\<lambda>pd verbose. Inr pd),
      idna = idna_codec (\<lambda>k. None)\<rparr>"

definition il_registry :: tld_meta where
  "il_registry = \<lparr>meta_privateRegistry = None, meta_server = Some ''whois.isoc.org.il'',
                   meta_slowdown = Some 5\<rparr>"

section \<open>Strings: suffixes and splitting\<close>

lemma startswith_iff: "startswith s p \<longleftrightarrow> (\<exists>x. s = p @ x)"
  by (induction s p rule: startswith.induct) auto

lemma endswith_iff: "endswith s suf \<longleftrightarrow> (\<exists>x. s = x @ suf)"
proof -
  have "endswith s suf \<longleftrightarrow> (\<exists>y. rev s = rev suf @ y)"
    by (simp add: endswith_def startswith_iff)
  also have "\<dots> \<longleftrightarrow> (\<exists>x. s = x @ suf)"
  proof
    assume "\<exists>y. rev s = rev suf @ y"
    then obtain y where "rev s = rev suf @ y" ..
    then have "s = rev y @ suf" by (metis rev_append rev_rev_ident)
    then show "\<exists>x. s = x @ suf" ..
  next
    assume "\<exists>x. s = x @ suf"
    then obtain x where "s = x @ suf" ..
    then have "rev s = rev suf @ rev x" by simp
    then show "\<exists>y. rev s = rev suf @ y" ..
  qed
  finally show ?thesis .
qed

lemma split_not_Nil: "split s sep \<noteq> []"
  by (induction s) (auto split: list.splits)

lemma split_no_sep: "sep \<notin> set t \<Longrightarrow> split t sep = [t]"
  by (induction t) auto

lemma last_split_suffix:
  assumes "sep \<notin> set t"
  shows "\<exists>u. last (split (x @ t) sep) = u @ t"
proof (induction x)
  case Nil
  then show ?case using assms by (simp add: split_no_sep)
next
  case (Cons c x)
  then obtain u where u: "last (split (x @ t) sep) = u @ t" ..
  show ?case
  proof (cases "c = sep")
    case True
    with u show ?thesis by (simp add: split_not_Nil)
  next
    case False
    obtain w ws where s: "split (x @ t) sep = w # ws"
      using split_not_Nil[of "x @ t" sep] by (cases "split (x @ t) sep") auto
    show ?thesis
    proof (cases ws)
      case Nil
      with s u False have "last (split ((c # x) @ t) sep) = (c # u) @ t" by simp
      then show ?thesis ..
    next
      case (Cons a as)
      with s u False have "last (split ((c # x) @ t) sep) = u @ t" by simp
      then show ?thesis ..
    qed
  qed
qed

lemma lower_char_dot: "lower_char c = CHR ''.'' \<longleftrightarrow> c = CHR ''.''"
  by (cases c) (auto simp: lower_char_def isupper_def)

lemma set_dropWhile_rev: "set (rev (dropWhile P (rev xs))) \<subseteq> set xs"
  using set_dropWhileD[of _ P "rev xs"] by auto

lemma normalize_no_dot:
  assumes "CHR ''.'' \<notin> set s"
  shows "CHR ''.'' \<notin> set (normalize s)"
proof -
  have "CHR ''.'' \<notin> set (lower s)"
    using assms lower_char_dot by (force simp: lower_def)
  moreover have "set (strip t) \<subseteq> set t" for t
    unfolding strip_def using set_dropWhile_rev[of isspace "dropWhile isspace t"]
      set_dropWhileD[of _ isspace t] by blast
  moreover have "set (rstrip t cs) \<subseteq> set t" for t cs
    unfolding rstrip_def by (rule set_dropWhile_rev)
  ultimately show ?thesis unfolding normalize_def by blast
qed

lemma rstrip_dot_single:
  assumes "\<not> endswith t ''..''"
  shows "rstrip t ''.'' = spec_strip_trailing_dot t"
proof (cases "rev t")
  case Nil
  then show ?thesis by (simp add: rstrip_def spec_strip_trailing_dot_def)
next
  case (Cons c r)
  then have t: "t = rev r @ [c]" by (metis rev.simps(2) rev_rev_ident)
  show ?thesis
  proof (cases "c = CHR ''.''")
    case False
    with t show ?thesis by (simp add: rstrip_def spec_strip_trailing_dot_def)
  next
    case True
    from assms t True have "r = [] \<or> hd r \<noteq> CHR ''.''"
      by (cases r) (auto simp: endswith_def)
    then have "dropWhile (\<lambda>c. c \<in> set ''.'') r = r" by (cases r) auto
    with t True show ?thesis by (simp add: rstrip_def spec_strip_trailing_dot_def)
  qed
qed

lemma labels_total: "labels domain = Inr (spec_drop_www (split domain (CHR ''.'')))"
  using split_not_Nil[of domain "CHR ''.''"]
  by (auto simp: labels_def spec_drop_www_def split: list.splits)

section \<open>The suffix classifier: compound suffixes\<close>

text \<open>
  Two keys of the compound table never match the same domain: a key that extends
  another one to the left would hold three dots.  So the order of the table does not
  decide any domain.
\<close>

lemma compound_key_extend:
  assumes "compound_key k1" "compound_key k2" "us @ k1 = k2"
  shows "us = []"
proof (rule ccontr)
  assume ne: "us \<noteq> []"
  with assms have "hd us = CHR ''.''" by (auto simp: compound_key_def)
  with ne have "count_list us (CHR ''.'') \<ge> 1" by (cases us) auto
  moreover have "count_list k2 (CHR ''.'') = count_list us (CHR ''.'') + count_list k1 (CHR ''.'')"
    using assms(3) by (metis count_list_append)
  ultimately show False using assms(1,2) by (simp add: compound_key_def)
qed

lemma compound_key_unique:
  assumes "compound_key k1" "compound_key k2" "endswith s k1" "endswith s k2"
  shows "k1 = k2"
proof -
  from assms(3) obtain x1 where "s = x1 @ k1" by (auto simp: endswith_iff)
  moreover from assms(4) obtain x2 where "s = x2 @ k2" by (auto simp: endswith_iff)
  ultimately have "x1 @ k1 = x2 @ k2" by simp
  then obtain us where "(x1 = x2 @ us \<and> us @ k1 = k2) \<or> (x1 @ us = x2 \<and> k1 = us @ k2)"
    by (auto simp: append_eq_append_conv2)
  then show ?thesis
    using compound_key_extend[OF assms(1,2)] compound_key_extend[OF assms(2,1)] by auto
qed

lemma first_suffix_entry:
  assumes "distinct (map fst M)" "\<forall>k \<in> set (map fst M). compound_key k"
    and "(k, v) \<in> set M" "endswith s k"
  shows "first_suffix M s = Some v"
  using assms
proof (induction M)
  case Nil
  then show ?case by simp
next
  case (Cons e M)
  obtain i w where e: "e = (i, w)" by (cases e)
  show ?case
  proof (cases "endswith s i")
    case True
    have "i = k" using compound_key_unique[of i k s] Cons.prems True e by force
    with Cons.prems e have "v = w" by (force simp: image_iff)
    with True e show ?thesis by simp
  next
    case False
    with Cons.prems e have "(k, v) \<in> set M" by auto
    with Cons False e show ?thesis by simp
  qed
qed

lemma Map2Underscore_keys:
  "distinct (map fst Map2Underscore)" "\<forall>k \<in> set (map fst Map2Underscore). compound_key k"
  by (simp_all add: Map2Underscore_def compound_key_def)

text \<open>
  C1 (as amended).  A domain of more than two labels whose text ends with a key of
  the compound table is classified to the identifier the table gives for that key,
  whatever else the text holds; \<open>a.b.co.il\<close> is classified to \<open>co_il\<close>.
\<close>

theorem compound_suffix_classified:
  assumes "length d > 2" "(suffix, tld) \<in> set Map2Underscore" "endswith domain suffix"
  shows "filterTldToSupportedPattern domain d verbose = Inr (tld, d)"
  using assms first_suffix_entry[OF Map2Underscore_keys assms(2,3)]
  by (simp add: filterTldToSupportedPattern_def)

theorem compound_suffix_classified_witness:
  "length [''a'', ''b'', ''co'', ''il''] > 2 \<and> (''.co.il'', ''co_il'') \<in> set Map2Underscore
   \<and> endswith ''a.b.co.il'' ''.co.il''
   \<and> filterTldToSupportedPattern ''a.b.co.il'' [''a'', ''b'', ''co'', ''il''] False
       = Inr (''co_il'', [''a'', ''b'', ''co'', ''il''])"
  using compound_suffix_classified
    [of "[''a'', ''b'', ''co'', ''il'']" "''.co.il''" "''co_il''" "''a.b.co.il''" False]
  by (simp add: Map2Underscore_def endswith_def)

text \<open>
  C1 as stated fails: the table has no key \<open>.co.uk\<close>, and \<open>a.b.co.uk\<close> is classified
  by the last rule, to \<open>uk\<close>.
\<close>

theorem co_uk_falls_back:
  "filterTldToSupportedPattern ''a.b.co.uk'' [''a'', ''b'', ''co'', ''uk''] False
       = Inr (''uk'', [''a'', ''b'', ''co'', ''uk''])
   \<and> filterTldToSupportedPattern ''a.b.co.uk'' [''a'', ''b'', ''co'', ''uk''] False
       \<noteq> Inr (''co_uk'', [''a'', ''b'', ''co'', ''uk''])"
  by (simp add: filterTldToSupportedPattern_def Map2Underscore_def PythonKeyWordMap_def
      Utf8Map_def endswith_def)

section \<open>The suffix classifier: the reserved identifier \<open>global\<close>\<close>

lemma global_not_compound:
  assumes "endswith domain ''global''"
  shows "first_suffix Map2Underscore domain = None"
proof -
  from assms obtain x where "domain = x @ ''global''" by (auto simp: endswith_iff)
  then show ?thesis by (simp add: Map2Underscore_def endswith_def)
qed

text \<open>
  C9.  The key \<open>global\<close> of the reserved-identifier table has no leading dot and is
  tested as a suffix of the whole text: every domain whose text ends with the
  letters \<open>global\<close>, at a label boundary or not, is classified to \<open>global_\<close>, which
  is not the last label of the text.
\<close>

theorem global_suffix_classified:
  assumes "endswith domain ''global''"
  shows "filterTldToSupportedPattern domain d verbose = Inr (''global_'', d)
         \<and> last (split domain (CHR ''.'')) \<noteq> ''global_''"
proof -
  from assms obtain x where x: "domain = x @ ''global''" by (auto simp: endswith_iff)
  obtain u where "last (split domain (CHR ''.'')) = u @ ''global''"
    using last_split_suffix[of "CHR ''.''" "''global''" x] x by auto
  then have "last (last (split domain (CHR ''.''))) = CHR ''l''" by simp
  then have "last (split domain (CHR ''.'')) \<noteq> ''global_''" by auto
  with assms show ?thesis
    by (simp add: filterTldToSupportedPattern_def global_not_compound PythonKeyWordMap_def)
qed

theorem global_suffix_classified_witness:
  "endswith ''example.myglobal'' ''global''
   \<and> filterTldToSupportedPattern ''example.myglobal'' [''example'', ''myglobal''] False
       = Inr (''global_'', [''example'', ''myglobal''])
   \<and> last (split ''example.myglobal'' (CHR ''.'')) = ''myglobal''"
  using global_suffix_classified [of "''example.myglobal''" "[''example'', ''myglobal'']" False]
  by (simp add: endswith_def)

section \<open>Concrete runs\<close>

text \<open>
  The equations that evaluate \<open>query\<close> on a concrete input, and the normalisation,
  the labels and the classification of the inputs used below.
\<close>

lemmas query_run =
  query_def query_str_def truthy_def CACHE_FILE_def SLOW_DOWN_def nothing_found_def plain_tld_def
  query_loop.simps attempt_def has_domain_name_def Let_def

lemmas normalize_run =
  normalize_def lower_def lower_char_def isupper_def strip_def rstrip_def isspace_def

lemmas classify_run =
  filterTldToSupportedPattern_def Map2Underscore_def PythonKeyWordMap_def Utf8Map_def endswith_def

lemma normalize_sub_example_co_il: "normalize ''Sub.Example.co.il.'' = ''sub.example.co.il''"
  by (simp add: normalize_run)

lemma labels_sub_example_co_il:
  "labels ''sub.example.co.il'' = Inr [''sub'', ''example'', ''co'', ''il'']"
  by (simp add: labels_def)

lemma classify_sub_example_co_il:
  "filterTldToSupportedPattern ''sub.example.co.il'' [''sub'', ''example'', ''co'', ''il''] False
     = Inr (''co_il'', [''sub'', ''example'', ''co'', ''il''])"
  by (simp add: classify_run)

lemma normalize_x_is: "normalize ''x.is'' = ''x.is''"
  by (simp add: normalize_run)

lemma labels_x_is: "labels ''x.is'' = Inr [''x'', ''is'']"
  by (simp add: labels_def)

lemma classify_x_is:
  "filterTldToSupportedPattern ''x.is'' [''x'', ''is''] False = Inr (''is_'', [''x'', ''is''])"
  by (simp add: classify_run)

lemma normalize_nonexistent: "normalize ''nonexistent.faketld'' = ''nonexistent.faketld''"
  by (simp add: normalize_run)

lemma labels_nonexistent: "labels ''nonexistent.faketld'' = Inr [''nonexistent'', ''faketld'']"
  by (simp add: labels_def)

lemma classify_nonexistent:
  "filterTldToSupportedPattern ''nonexistent.faketld'' [''nonexistent'', ''faketld''] False
     = Inr (''faketld'', [''nonexistent'', ''faketld''])"
  by (simp add: classify_run)

lemma normalize_example_hopto: "normalize ''example.hopto.org'' = ''example.hopto.org''"
  by (simp add: normalize_run)

lemma labels_example_hopto: "labels ''example.hopto.org'' = Inr [''example'', ''hopto'', ''org'']"
  by (simp add: labels_def)

lemma classify_example_hopto:
  "filterTldToSupportedPattern ''example.hopto.org'' [''example'', ''hopto'', ''org''] False
     = Inr (''hopto_org'', [''example'', ''hopto'', ''org''])"
  by (simp add: classify_run)

lemma normalize_example_com: "normalize ''example.com'' = ''example.com''"
  by (simp add: normalize_run)

lemma labels_example_com: "labels ''example.com'' = Inr [''example'', ''com'']"
  by (simp add: labels_def)

lemma classify_example_com:
  "filterTldToSupportedPattern ''example.com'' [''example'', ''com''] False
     = Inr (''com'', [''example'', ''com''])"
  by (simp add: classify_run)

section \<open>The label normalizer\<close>

text \<open>
  C6 (as amended).  The normalizer is: lowercase, strip leading and trailing
  whitespace, remove every trailing dot (\<open>rstrip(".")\<close>), split on the dot, drop the
  first label when it equals \<open>www\<close>.  No step fails: \<open>split\<close> always returns a first
  element, so \<open>d[0]\<close> never raises.  The result is the one of the specification's
  steps whenever the stripped text does not end with two dots.
\<close>

theorem normalizer_steps:
  "labels (normalize raw)
     = Inr (spec_drop_www (split (rstrip (strip (lower raw)) ''.'') (CHR ''.'')))
   \<and> (\<not> endswith (strip (lower raw)) ''..'' \<longrightarrow> labels (normalize raw) = Inr (spec_labels raw))"
  by (simp add: labels_total normalize_def spec_labels_def rstrip_dot_single)

theorem normalizer_steps_witness:
  "\<not> endswith (strip (lower '' WWW.Example.COM. '')) ''..''
   \<and> labels (normalize '' WWW.Example.COM. '') = Inr [''example'', ''com'']
   \<and> spec_labels '' WWW.Example.COM. '' = [''example'', ''com'']"
  using normalizer_steps [of "'' WWW.Example.COM. ''"]
  by (simp add: normalize_run labels_def endswith_def)

text \<open>
  C6 as stated fails: of two trailing dots the specification's normalizer removes
  one and keeps an empty last label, the code removes both.
\<close>

theorem all_trailing_dots_removed:
  "labels (normalize ''a.com..'') = Inr [''a'', ''com'']
   \<and> spec_labels ''a.com..'' = [''a'', ''com'', '''']"
  by (simp add: normalize_run labels_def spec_labels_def spec_strip_trailing_dot_def
      spec_drop_www_def)

section \<open>The internationalization converter: failures\<close>

lemma puny_length:
  "internationalizedDomainNameToPunyCode enc d = Inr r \<Longrightarrow> length r = length d"
  by (induction d arbitrary: r) (auto split: option.splits sum.splits)

lemma puny_error:
  "internationalizedDomainNameToPunyCode enc d = Inl e \<Longrightarrow> e = UnicodeError"
  by (induction d arbitrary: e) (auto split: option.splits sum.splits)




section \<open>The retry loop\<close>

text \<open>
  \<open>query_loop\<close> is defined by well-founded recursion on the length of \<open>d\<close>, so it
  returns on every input.  Its calls of \<open>do_query\<close> are the successive tails of \<open>d\<close>,
  all with the other arguments unchanged.
\<close>

lemma query_loop_calls:
  "snd (query_loop C tld lvl w args d) \<noteq> [] \<and>
   length (snd (query_loop C tld lvl w args d)) \<le> Suc (length d - Suc (length lvl)) \<and>
   (\<forall>i < length (snd (query_loop C tld lvl w args d)).
      snd (query_loop C tld lvl w args d) ! i = args\<lparr>dl := drop i d\<rparr>)"
proof (induction C tld lvl w args d rule: query_loop.induct)
  case (1 C tld tldLevel w args d)
  show ?case
  proof (cases "attempt C tld w (args\<lparr>dl := d\<rparr>)")
    case (Some r)
    then show ?thesis by (simp add: query_loop.simps[of C tld tldLevel w args d])
  next
    case None
    show ?thesis
    proof (cases "length d > length tldLevel + 1")
      case False
      with None show ?thesis by (simp add: query_loop.simps[of C tld tldLevel w args d])
    next
      case True
      note IH = "1.IH"[OF None True]
      have eq: "snd (query_loop C tld tldLevel w args d)
          = args\<lparr>dl := d\<rparr> # snd (query_loop C tld tldLevel w args (drop 1 d))"
        using None True by (simp add: query_loop.simps[of C tld tldLevel w args d])
      show ?thesis
        unfolding eq using IH True
        by (auto simp: nth_Cons split: nat.splits)
    qed
  qed
qed

lemma filterTld_length:
  "filterTldToSupportedPattern domain d verbose = Inr (tld, d1) \<Longrightarrow> length d1 = length d"
  by (auto simp: filterTldToSupportedPattern_def split: option.splits if_splits list.splits)

lemma filterTld_error:
  "filterTldToSupportedPattern domain d verbose = Inl e \<Longrightarrow> e = IndexError"
  by (auto simp: filterTldToSupportedPattern_def split: option.splits if_splits list.splits)

text \<open>
  What \<open>query\<close> does after the classification: it returns or raises without a call
  of \<open>do_query\<close>, or it enters the loop with a sequence as long as the normalized
  one and with the server and the delay resolved from the metadata.
\<close>

lemma query_str_reaches_loop:
  assumes "labels (normalize s) = Inr d"
    and "filterTldToSupportedPattern (normalize s) d verbose = Inr (tld, d1)"
  shows "(\<exists>r. query_str C s force cf sd irc server verbose wcr intl = (r, [])
          \<and> (\<forall>msg. r \<noteq> Inl (AssertionError msg))) \<or>
    (\<exists>thisTld d2. TLD_RE C tld = Some thisTld \<and> length d2 = length d \<and>
       query_str C s force cf sd irc server verbose wcr intl =
         query_loop C tld (split tld (CHR ''_'')) wcr
           \<lparr>dl = d2, q_force = force, q_cache_file = (if truthy cf then cf else CACHE_FILE),
            q_slow_down = effective_delay sd thisTld, q_ignore_returncode = irc,
            q_server = effective_server server thisTld, q_verbose = verbose\<rparr> d2)"
proof (cases "length d = 1")
  case True
  with assms show ?thesis by (simp add: query_str_def)
next
  case len: False
  show ?thesis
  proof (cases "TLD_RE C tld")
    case None
    with assms len show ?thesis by (simp add: query_str_def)
  next
    case (Some thisTld)
    show ?thesis
    proof (cases "meta_privateRegistry thisTld = Some True")
      case True
      with assms len Some show ?thesis by (simp add: query_str_def)
    next
      case False
      have sd: "(case meta_slowdown thisTld of
                  Some n \<Rightarrow> if (if sd \<noteq> 0 then sd else SLOW_DOWN) = 0 \<and> n \<noteq> 0 \<and> n > 0 then n
                            else (if sd \<noteq> 0 then sd else SLOW_DOWN)
                | None \<Rightarrow> (if sd \<noteq> 0 then sd else SLOW_DOWN)) = effective_delay sd thisTld"
        by (auto simp: effective_delay_def SLOW_DOWN_def split: option.splits)
      have sv: "(if server = None \<and> truthy (meta_server thisTld) then meta_server thisTld else server)
          = effective_server server thisTld"
        by (auto simp: effective_server_def truthy_def split: option.splits)
      show ?thesis
      proof (cases "if intl then internationalizedDomainNameToPunyCode (idna C) d1 else Inr d1")
        case (Inl e)
        then have "e = UnicodeError"
          by (auto simp: puny_error split: if_splits)
        with Inl assms len Some False show ?thesis by (simp add: query_str_def Let_def)
      next
        case (Inr d2)
        then have "length d2 = length d1"
          by (auto split: if_splits dest: puny_length)
        with assms have "length d2 = length d" by (simp add: filterTld_length)
        moreover have "query_str C s force cf sd irc server verbose wcr intl =
         query_loop C tld (split tld (CHR ''_'')) wcr
           \<lparr>dl = d2, q_force = force, q_cache_file = (if truthy cf then cf else CACHE_FILE),
            q_slow_down = effective_delay sd thisTld, q_ignore_returncode = irc,
            q_server = effective_server server thisTld, q_verbose = verbose\<rparr> d2"
          using assms len Some False Inr
          by (simp add: query_str_def Let_def sd sv)
        ultimately show ?thesis using Some by blast
      qed
    qed
  qed
qed

text \<open>
  C2 (as amended).  For a normalized sequence of \<open>n\<close> labels and a TLD identifier
  that splits on \<open>_\<close> into \<open>k\<close> parts, \<open>query\<close> returns, calls \<open>do_query\<close> at most
  \<open>1 + (n - (k + 1))\<close> times, the first time with all \<open>n\<close> labels, every later time
  with the previous sequence without its first label, and never retries with fewer
  than \<open>k + 1\<close> labels.
\<close>

theorem retries_bounded:
  fixes C :: "'dom collab" and s force cf sd irc server verbose wcr intl tld
  defines "calls \<equiv> snd (query C (PyStr s) force cf sd irc server verbose wcr intl)"
    and "k \<equiv> length (split tld (CHR ''_''))"
  assumes "labels (normalize s) = Inr d"
    and "filterTldToSupportedPattern (normalize s) d verbose = Inr (tld, d1)"
  shows "length calls \<le> Suc (length d - (k + 1))
    \<and> (calls \<noteq> [] \<longrightarrow> length (dl (calls ! 0)) = length d)
    \<and> (\<forall>i. Suc i < length calls \<longrightarrow>
            dl (calls ! Suc i) = drop 1 (dl (calls ! i)) \<and> k + 1 \<le> length (dl (calls ! Suc i)))"
proof -
  define n where "n = length d"
  have q: "calls = snd (query_str C s force cf sd irc server verbose wcr intl)"
    by (simp add: calls_def query_def)
  consider (none) "calls = []"
    | (loop) d2 args where "length d2 = n"
        "calls = snd (query_loop C tld (split tld (CHR ''_'')) wcr args d2)"
    using query_str_reaches_loop[OF assms(3,4), of C force cf sd irc server wcr intl] q n_def
    by fastforce
  then have "length calls \<le> Suc (n - (k + 1))
    \<and> (calls \<noteq> [] \<longrightarrow> length (dl (calls ! 0)) = n)
    \<and> (\<forall>i. Suc i < length calls \<longrightarrow>
            dl (calls ! Suc i) = drop 1 (dl (calls ! i)) \<and> k + 1 \<le> length (dl (calls ! Suc i)))"
  proof cases
    case none
    then show ?thesis by simp
  next
    case loop
    note L = query_loop_calls[of C tld "split tld (CHR ''_'')" wcr args d2, folded loop(2)]
    from L have len: "length calls \<le> Suc (n - Suc k)" and ne: "calls \<noteq> []"
      and nth: "\<And>i. i < length calls \<Longrightarrow> calls ! i = args\<lparr>dl := drop i d2\<rparr>"
      using loop(1) by (auto simp: k_def)
    have A: "length calls \<le> Suc (n - (k + 1))" using len by simp
    have B: "length (dl (calls ! 0)) = n"
      using nth[of 0] ne loop(1) by simp
    have C: "dl (calls ! Suc i) = drop 1 (dl (calls ! i)) \<and> k + 1 \<le> length (dl (calls ! Suc i))"
      if "Suc i < length calls" for i
    proof -
      from that len have "Suc i \<le> n - Suc k" by simp
      then have "k + 1 \<le> n - Suc i" by simp
      then show ?thesis
        using nth[of i] nth[of "Suc i"] that loop(1) by simp
    qed
    from A B C show ?thesis by blast
  qed
  then show ?thesis unfolding n_def .
qed

theorem retries_bounded_witness:
  "labels (normalize ''Sub.Example.co.il.'') = Inr [''sub'', ''example'', ''co'', ''il'']
   \<and> filterTldToSupportedPattern (normalize ''Sub.Example.co.il.'')
        [''sub'', ''example'', ''co'', ''il''] False
       = Inr (''co_il'', [''sub'', ''example'', ''co'', ''il''])
   \<and> length (split ''co_il'' (CHR ''_'')) = 2
   \<and> map dl (snd (query (nothing_found [(''co_il'', plain_tld)]) (PyStr ''Sub.Example.co.il.'')
          False None 0 False None False False False))
       = [[''sub'', ''example'', ''co'', ''il''], [''example'', ''co'', ''il'']]
   \<and> length (snd (query (nothing_found [(''co_il'', plain_tld)]) (PyStr ''Sub.Example.co.il.'')
          False None 0 False None False False False)) \<le> Suc (4 - (2 + 1))"
  using retries_bounded
    [where s = "''Sub.Example.co.il.''" and d = "[''sub'', ''example'', ''co'', ''il'']"
       and verbose = False and tld = "''co_il''" and ?d1.0 = "[''sub'', ''example'', ''co'', ''il'']"
       and C = "nothing_found [(''co_il'', plain_tld)]" and force = False and cf = None
       and sd = 0 and irc = False and server = None and wcr = False and intl = False]
  by (simp add: query_run normalize_sub_example_co_il labels_sub_example_co_il
      classify_sub_example_co_il)

text \<open>
  C2 as stated fails for the first lookup: \<open>x.is\<close> is classified to \<open>is_\<close>, which
  splits on \<open>_\<close> into two parts, and the lookup is made with the two labels of
  \<open>x.is\<close>, fewer than three.
\<close>

theorem first_lookup_below_depth:
  "filterTldToSupportedPattern (normalize ''x.is'') [''x'', ''is''] False = Inr (''is_'', [''x'', ''is''])
   \<and> length (split ''is_'' (CHR ''_'')) + 1 = 3
   \<and> map dl (snd (query (nothing_found [(''is_'', plain_tld)]) (PyStr ''x.is'')
          False None 0 False None False False False)) = [[''x'', ''is'']]
   \<and> length [''x'', ''is''] < length (split ''is_'' (CHR ''_'')) + 1"
  by (simp add: query_run normalize_x_is labels_x_is classify_x_is)

section \<open>Single labels\<close>

text \<open>
  C3.  A string without a dot is a single label, and \<open>query\<close> returns \<open>None\<close> for it
  without a lookup, unless its normal form is \<open>www\<close>.
\<close>

lemma single_label_absent:
  assumes "CHR ''.'' \<notin> set s" and "normalize s \<noteq> ''www''"
  shows "query C (PyStr s) force cache_file slow_down ignore_returncode server verbose
           with_cleanup_results internationalized = (Inr None, [])"
  using assms split_no_sep[OF normalize_no_dot[OF assms(1)]]
  by (simp add: query_def query_str_def labels_def)

text \<open>
  C3 at the input \<open>www\<close>: the label is dropped, the list is empty, the test
  \<open>len(d) == 1\<close> does not hold, and \<open>d[-1]\<close> in the classifier raises \<open>IndexError\<close>.
\<close>

theorem www_alone_raises:
  "query C (PyStr ''www'') force cache_file slow_down ignore_returncode server verbose
     with_cleanup_results internationalized = (Inl IndexError, [])"
  by (simp add: query_def query_str_def normalize_run labels_def classify_run)

section \<open>Errors raised before the loop\<close>

text \<open>
  C4.  When the identifier that the classifier returns is not a key of \<open>TLD_RE\<close>,
  \<open>query\<close> raises \<open>UnknownTld\<close> and has not called \<open>do_query\<close>.
\<close>

theorem unknown_tld_raised:
  assumes "labels (normalize s) = Inr d" and "length d \<noteq> 1"
    and "filterTldToSupportedPattern (normalize s) d verbose = Inr (tld, d1)"
    and "TLD_RE C tld = None"
  shows "query C (PyStr s) force cache_file slow_down ignore_returncode server verbose
           with_cleanup_results internationalized
         = (Inl (UnknownTld (''The TLD '' @ tld @ '' is currently not supported by this package.''
                    @ '' '' @ ''Use validTlds() to see what toplevel domains are supported.'')), [])"
  using assms by (simp add: query_def query_str_def)

theorem unknown_tld_raised_witness:
  "labels (normalize ''nonexistent.faketld'') = Inr [''nonexistent'', ''faketld'']
   \<and> length [''nonexistent'', ''faketld''] \<noteq> 1
   \<and> filterTldToSupportedPattern (normalize ''nonexistent.faketld'')
        [''nonexistent'', ''faketld''] False = Inr (''faketld'', [''nonexistent'', ''faketld''])
   \<and> TLD_RE (nothing_found [(''com'', plain_tld)]) ''faketld'' = None
   \<and> query (nothing_found [(''com'', plain_tld)]) (PyStr ''nonexistent.faketld'')
         False None 0 False None False False False
       = (Inl (UnknownTld (''The TLD faketld is currently not supported by this package. ''
             @ ''Use validTlds() to see what toplevel domains are supported.'')), [])"
  using unknown_tld_raised
    [of "''nonexistent.faketld''" "[''nonexistent'', ''faketld'']" False "''faketld''"
        "[''nonexistent'', ''faketld'']" "nothing_found [(''com'', plain_tld)]"
        False None 0 False None False False]
  by (simp add: normalize_nonexistent labels_nonexistent classify_nonexistent nothing_found_def)

text \<open>
  C5.  When the metadata of the identifier has \<open>_privateRegistry\<close> set, \<open>query\<close>
  raises \<open>WhoisPrivateRegistry\<close> and has not called \<open>do_query\<close>.
\<close>

theorem private_registry_raised:
  assumes "labels (normalize s) = Inr d" and "length d \<noteq> 1"
    and "filterTldToSupportedPattern (normalize s) d verbose = Inr (tld, d1)"
    and "TLD_RE C tld = Some thisTld" and "meta_privateRegistry thisTld = Some True"
  shows "query C (PyStr s) force cache_file slow_down ignore_returncode server verbose
           with_cleanup_results internationalized
         = (Inl (WhoisPrivateRegistry
             ''This tld has either no whois server or responds only with minimal information''), [])"
  using assms by (simp add: query_def query_str_def)

theorem private_registry_raised_witness:
  "labels (normalize ''example.hopto.org'') = Inr [''example'', ''hopto'', ''org'']
   \<and> length [''example'', ''hopto'', ''org''] \<noteq> 1
   \<and> filterTldToSupportedPattern (normalize ''example.hopto.org'')
        [''example'', ''hopto'', ''org''] False = Inr (''hopto_org'', [''example'', ''hopto'', ''org''])
   \<and> TLD_RE (nothing_found [(''hopto_org'', plain_tld\<lparr>meta_privateRegistry := Some True\<rparr>)])
        ''hopto_org'' = Some (plain_tld\<lparr>meta_privateRegistry := Some True\<rparr>)
   \<and> meta_privateRegistry (plain_tld\<lparr>meta_privateRegistry := Some True\<rparr>) = Some True
   \<and> query (nothing_found [(''hopto_org'', plain_tld\<lparr>meta_privateRegistry := Some True\<rparr>)])
         (PyStr ''example.hopto.org'') False None 0 False None False False False
       = (Inl (WhoisPrivateRegistry
             ''This tld has either no whois server or responds only with minimal information''), [])"
  using private_registry_raised
    [of "''example.hopto.org''" "[''example'', ''hopto'', ''org'']" False "''hopto_org''"
        "[''example'', ''hopto'', ''org'']"
        "nothing_found [(''hopto_org'', plain_tld\<lparr>meta_privateRegistry := Some True\<rparr>)]"
        "plain_tld\<lparr>meta_privateRegistry := Some True\<rparr>"
        False None 0 False None False False]
  by (simp add: normalize_example_hopto labels_example_hopto classify_example_hopto
      nothing_found_def)

section \<open>The query parameters\<close>

text \<open>
  The two guards matter only for an empty server override and for a negative
  minimum delay; everywhere else the resolved values are the ones of the
  specification.
\<close>

lemma effective_server_spec:
  "meta_server thisTld \<noteq> Some [] \<Longrightarrow>
     effective_server server thisTld = spec_effective_server server thisTld"
  by (auto simp: effective_server_def spec_effective_server_def split: option.splits)

lemma effective_delay_spec:
  "(case meta_slowdown thisTld of Some n \<Rightarrow> 0 \<le> n | None \<Rightarrow> True) \<Longrightarrow>
     effective_delay slow_down thisTld = spec_effective_delay slow_down thisTld"
  by (auto simp: effective_delay_def spec_effective_delay_def split: option.splits)

text \<open>
  C8 (as amended).  Every call of \<open>do_query\<close> in one \<open>query\<close> gets the same server
  and the same delay: the caller's server when given, otherwise the metadata's
  server override when present and not empty, otherwise none; the caller's delay
  when nonzero, otherwise the metadata's minimum delay when present and positive,
  otherwise zero.
\<close>

theorem effective_parameters:
  assumes "labels (normalize s) = Inr d"
    and "filterTldToSupportedPattern (normalize s) d verbose = Inr (tld, d1)"
    and "TLD_RE C tld = Some thisTld"
  shows "\<forall>c \<in> set (snd (query C (PyStr s) force cf sd irc server verbose wcr intl)).
           q_server c = effective_server server thisTld
           \<and> q_slow_down c = effective_delay sd thisTld"
proof
  fix c
  let ?calls = "snd (query C (PyStr s) force cf sd irc server verbose wcr intl)"
  assume "c \<in> set ?calls"
  then obtain i where i: "i < length ?calls" "c = ?calls ! i"
    by (auto simp: in_set_conv_nth)
  then have ne: "snd (query_str C s force cf sd irc server verbose wcr intl) \<noteq> []"
    by (auto simp: query_def)
  with query_str_reaches_loop[OF assms(1,2), of C force cf sd irc server wcr intl] assms(3)
  obtain d2 where
    "query_str C s force cf sd irc server verbose wcr intl =
         query_loop C tld (split tld (CHR ''_'')) wcr
           \<lparr>dl = d2, q_force = force, q_cache_file = (if truthy cf then cf else CACHE_FILE),
            q_slow_down = effective_delay sd thisTld, q_ignore_returncode = irc,
            q_server = effective_server server thisTld, q_verbose = verbose\<rparr> d2"
    by auto
  then show "q_server c = effective_server server thisTld
           \<and> q_slow_down c = effective_delay sd thisTld"
    using i query_loop_calls[of C tld "split tld (CHR ''_'')" wcr
           "\<lparr>dl = d2, q_force = force, q_cache_file = (if truthy cf then cf else CACHE_FILE),
            q_slow_down = effective_delay sd thisTld, q_ignore_returncode = irc,
            q_server = effective_server server thisTld, q_verbose = verbose\<rparr>" d2]
    by (simp add: query_def)
qed

theorem effective_parameters_witness:
  "labels (normalize ''Sub.Example.co.il.'') = Inr [''sub'', ''example'', ''co'', ''il'']
   \<and> filterTldToSupportedPattern (normalize ''Sub.Example.co.il.'')
        [''sub'', ''example'', ''co'', ''il''] False
       = Inr (''co_il'', [''sub'', ''example'', ''co'', ''il''])
   \<and> TLD_RE (nothing_found [(''co_il'', il_registry)]) ''co_il'' = Some il_registry
   \<and> map (\<lambda>c. (dl c, q_server c, q_slow_down c))
        (snd (query (nothing_found [(''co_il'', il_registry)]) (PyStr ''Sub.Example.co.il.'')
               False None 0 False None False False False))
       = [([''sub'', ''example'', ''co'', ''il''], Some ''whois.isoc.org.il'', 5),
          ([''example'', ''co'', ''il''], Some ''whois.isoc.org.il'', 5)]
   \<and> effective_server None il_registry = Some ''whois.isoc.org.il''
   \<and> effective_delay 0 il_registry = 5"
  using effective_parameters
    [of "''Sub.Example.co.il.''" "[''sub'', ''example'', ''co'', ''il'']" False "''co_il''"
        "[''sub'', ''example'', ''co'', ''il'']" "nothing_found [(''co_il'', il_registry)]"
        il_registry False None 0 False None False False]
  by (simp add: query_run normalize_sub_example_co_il labels_sub_example_co_il
      classify_sub_example_co_il il_registry_def effective_server_def effective_delay_def)

text \<open>
  C8 as stated fails: a minimum delay of \<open>-1\<close> in the metadata is present, and the
  guard \<open>slowDown > 0\<close> keeps the delay at zero.
\<close>

theorem negative_minimum_delay_ignored:
  "TLD_RE (nothing_found [(''com'', plain_tld\<lparr>meta_slowdown := Some (- 1)\<rparr>)]) ''com''
     = Some (plain_tld\<lparr>meta_slowdown := Some (- 1)\<rparr>)
   \<and> map q_slow_down
        (snd (query (nothing_found [(''com'', plain_tld\<lparr>meta_slowdown := Some (- 1)\<rparr>)])
               (PyStr ''example.com'') False None 0 False None False False False)) = [0]
   \<and> spec_effective_delay 0 (plain_tld\<lparr>meta_slowdown := Some (- 1)\<rparr>) = - 1"
  by (simp add: query_run normalize_example_com labels_example_com classify_example_com
      spec_effective_delay_def)

section \<open>The assertion on the argument\<close>

lemma has_domain_name_no_assert: "has_domain_name pd \<noteq> Inl (AssertionError msg)"
  by (auto simp: has_domain_name_def split: option.splits list.splits)

lemma attempt_no_assert: "attempt C tld w call \<noteq> Some (Inl (AssertionError msg))"
  using has_domain_name_no_assert
  by (auto simp: attempt_def split: sum.splits option.splits bool.splits)

lemma query_loop_no_assert:
  "fst (query_loop C tld lvl w args d) \<noteq> Inl (AssertionError msg)"
proof (induction C tld lvl w args d rule: query_loop.induct)
  case (1 C tld tldLevel w args d)
  show ?case
  proof (cases "attempt C tld w (args\<lparr>dl := d\<rparr>)")
    case (Some r)
    with attempt_no_assert[of C tld w "args\<lparr>dl := d\<rparr>" msg] show ?thesis
      by (simp add: query_loop.simps[of C tld tldLevel w args d])
  next
    case None
    show ?thesis
    proof (cases "length d > length tldLevel + 1")
      case False
      with None show ?thesis by (simp add: query_loop.simps[of C tld tldLevel w args d])
    next
      case True
      with None "1.IH"[OF None True] show ?thesis
        by (simp add: query_loop.simps[of C tld tldLevel w args d])
    qed
  qed
qed

lemma query_str_no_assert:
  "fst (query_str C s force cf sd irc server verbose wcr intl) \<noteq> Inl (AssertionError msg)"
proof (cases "length (spec_drop_www (split (normalize s) (CHR ''.''))) = 1")
  case True
  then show ?thesis by (simp add: query_str_def labels_total)
next
  case len: False
  show ?thesis
  proof (cases "filterTldToSupportedPattern (normalize s)
                  (spec_drop_www (split (normalize s) (CHR ''.''))) verbose")
    case (Inl e)
    with filterTld_error[OF Inl] len show ?thesis by (simp add: query_str_def labels_total)
  next
    case (Inr p)
    obtain tld d1 where "p = (tld, d1)" by (cases p)
    with Inr query_str_reaches_loop[OF labels_total, of s verbose tld d1 C force cf sd irc server wcr intl]
    show ?thesis using query_loop_no_assert[of C tld _ wcr _ _ msg] by auto
  qed
qed

text \<open>
  C10.  With assertions enabled, \<open>query\<close> raises \<open>AssertionError\<close> on every argument
  that is not a \<open>str\<close>, before anything else and without a lookup; on a \<open>str\<close> it
  never raises \<open>AssertionError\<close>.
\<close>

theorem assertion_exactly_for_non_str:
  "(\<not> isinstance_str v \<longrightarrow>
      query C v force cache_file slow_down ignore_returncode server verbose
        with_cleanup_results internationalized
      = (Inl (AssertionError ''`domain` - must be <str>''), []))
   \<and> (isinstance_str v \<longrightarrow>
      (\<forall>msg. fst (query C v force cache_file slow_down ignore_returncode server verbose
                      with_cleanup_results internationalized) \<noteq> Inl (AssertionError msg)))"
  by (cases v) (simp_all add: query_def isinstance_str_def query_str_no_assert)

theorem assertion_exactly_for_non_str_witness:
  "\<not> isinstance_str (PyInt 5)
   \<and> query (nothing_found [(''com'', plain_tld)]) (PyInt 5) False None 0 False None False False False
       = (Inl (AssertionError ''`domain` - must be <str>''), [])
   \<and> isinstance_str (PyStr ''example.com'')
   \<and> fst (query (nothing_found [(''com'', plain_tld)]) (PyStr ''example.com'')
            False None 0 False None False False False)
       \<noteq> Inl (AssertionError ''`domain` - must be <str>'')"
  using assertion_exactly_for_non_str
      [of "PyInt 5" "nothing_found [(''com'', plain_tld)]" False None 0 False None False False False]
    assertion_exactly_for_non_str
      [of "PyStr ''example.com''" "nothing_found [(''com'', plain_tld)]"
          False None 0 False None False False False]
  by (simp add: isinstance_str_def)

end
